theory Spec2Isabelle
  imports Main "HOL-Library.Sublist"
begin

section \<open>DocuChat AI: a shallow embedding of the upload, session and dispatch logic\<close>

text \<open>
  The development follows the TypeScript sources: \<^verbatim>\<open>types.ts\<close> (the data model),
  \<^verbatim>\<open>services/geminiService.ts\<close> (the session handle, the summary request and the
  streaming dispatcher), \<^verbatim>\<open>components/FileUpload.tsx\<close> (batch validation and
  encoding), \<^verbatim>\<open>components/ChatInterface.tsx\<close> (the send and summary handlers)
  and \<^verbatim>\<open>App.tsx\<close> (mounting and discarding the chat view).

  JavaScript strings are modelled as \<^typ>\<open>string\<close>, a \<^typ>\<open>char\<close> standing for a code unit
  below 256; strings with higher code units are outside the model. Every character the
  code produces itself (the comma, decimal digits, the fixed messages) is ASCII.
  Exceptions are values of a sum type, with \<open>Inl\<close> for the thrown error. What the
  browser and the remote service answer is not determined by the program, so each
  operation takes that answer as an argument.
\<close>

subsection \<open>Data model (\<^verbatim>\<open>types.ts\<close>)\<close>

text \<open>
  The browser's \<^verbatim>\<open>File\<close> carries a name, a declared MIME type and a size in bytes;
  \<^verbatim>\<open>UploadedFile\<close> has the same three fields and the encoded \<^verbatim>\<open>data\<close>. The fields
  \<^verbatim>\<open>type\<close> and \<^verbatim>\<open>size\<close> are called \<open>file_type\<close> and \<open>file_size\<close> here.
\<close>

record browser_file =
  name :: string
  file_type :: string
  file_size :: nat

record uploaded_file = browser_file +
  data :: string

datatype role = User | Model

text \<open>
  \<^verbatim>\<open>Message\<close>: the fields \<^verbatim>\<open>id\<close> and \<^verbatim>\<open>text\<close> are called \<open>msg_id\<close> and \<open>msg_text\<close>;
  the optional \<^verbatim>\<open>isError\<close> is an option.
\<close>

record message =
  msg_id :: string
  role :: role
  msg_text :: string
  timestamp :: nat
  isError :: "bool option"

datatype AppState = UPLOAD | CHAT

text \<open>A thrown JavaScript \<^verbatim>\<open>Error\<close>, with its message.\<close>

datatype error = Error string

subsection \<open>String primitives of the runtime\<close>

text \<open>
  \<^verbatim>\<open>s.split(sep)\<close> for a one-character separator: the segments between the
  occurrences of the separator, in order. The result is never empty
  (\<^verbatim>\<open>"".split(",")\<close> is \<^verbatim>\<open>[""]\<close>).
\<close>

fun split :: "char \<Rightarrow> string \<Rightarrow> string list" where
  "split sep [] = [[]]"
| "split sep (c # cs) =
     (if c = sep then [] # split sep cs
      else (case split sep cs of
              [] \<Rightarrow> [[c]]
            | seg # segs \<Rightarrow> (c # seg) # segs))"

text \<open>
  \<^verbatim>\<open>xs[i]\<close> on a JavaScript array: \<^verbatim>\<open>undefined\<close> (here \<open>None\<close>) out of range.
\<close>

definition at_index :: "'a list \<Rightarrow> nat \<Rightarrow> 'a option" where
  "at_index xs i = (if i < length xs then Some (xs ! i) else None)"

text \<open>
  \<^verbatim>\<open>a || b\<close> where \<^verbatim>\<open>a\<close> is a string or \<^verbatim>\<open>undefined\<close>: the empty string and
  \<^verbatim>\<open>undefined\<close> are falsy.
\<close>

definition or_else :: "string option \<Rightarrow> string \<Rightarrow> string" where
  "or_else a b = (case a of None \<Rightarrow> b | Some s \<Rightarrow> if s = [] then b else s)"

text \<open>
  \<^verbatim>\<open>s.trim()\<close>: white space and line terminators removed at both ends. Among the code
  units below 256 these are the tab, line feed, vertical tab, form feed, carriage
  return, the space and the no-break space (\<open>0xA0\<close>).
\<close>

definition is_space :: "char \<Rightarrow> bool" where
  "is_space c \<longleftrightarrow>
     c \<in> set [CHR 0x09, CHR 0x0A, CHR 0x0B, CHR 0x0C, CHR 0x0D, CHR 0x20, CHR 0xA0]"

definition trim :: "string \<Rightarrow> string" where
  "trim s = rev (dropWhile is_space (rev (dropWhile is_space s)))"

text \<open>\<^verbatim>\<open>n.toString()\<close> for a non-negative integer: its decimal digits.\<close>

definition digit :: "nat \<Rightarrow> char" where
  "digit d = char_of (48 + d)"

function toString :: "nat \<Rightarrow> string" where
  "toString n = (if n < 10 then [digit n] else toString (n div 10) @ [digit (n mod 10)])"
  by pat_completeness auto
termination
  by (relation "measure id") auto

declare toString.simps [simp del]

subsection \<open>Batch validation and encoding (\<^verbatim>\<open>FileUpload.tsx\<close>, \<^verbatim>\<open>processFiles\<close>)\<close>

text \<open>
  The validation loop of \<^verbatim>\<open>processFiles\<close>: each file in order is checked for its
  type, then for its size; the first failing check sets the error message and returns.
  \<open>None\<close> means the loop ran to its end.
\<close>

fun validation :: "browser_file list \<Rightarrow> string option" where
  "validation [] = None"
| "validation (f # fs) =
     (if file_type f \<noteq> ''application/pdf'' then Some ''Only PDF files are allowed.''
      else if file_size f > 20 * 1024 * 1024
        then Some (''File \"'' @ name f @ ''\" exceeds 20MB limit.'')
      else validation fs)"

text \<open>
  The component state that \<^verbatim>\<open>processFiles\<close> writes, and the two effects it has outside
  the component: the files handed to a \<^verbatim>\<open>FileReader\<close> (\<open>reads\<close>, in order) and the
  calls of the \<^verbatim>\<open>onFileSelect\<close> callback, which acts on the caller's state \<open>'u\<close>.
\<close>

record upload_ui =
  upload_error :: "string option"
  upload_isLoading :: bool

record 'u upload_outcome =
  ui_after :: upload_ui
  reads :: "browser_file list"
  caller_after :: 'u

text \<open>
  \<open>readAsDataURL f\<close> is what the reader produces for \<open>f\<close>: \<open>Some\<close> data URL
  (\<^verbatim>\<open>onload\<close>) or \<open>None\<close> (\<^verbatim>\<open>onerror\<close>). All readers are started before any result is
  awaited (\<^verbatim>\<open>files.map\<close> builds every promise), and \<^verbatim>\<open>Promise.all\<close> rejects when one
  of them does. Which rejection it reports is of no consequence: \<^verbatim>\<open>processFiles\<close> only
  writes it to the console.
\<close>

definition encode ::
  "(browser_file \<Rightarrow> string option) \<Rightarrow> browser_file \<Rightarrow> error + uploaded_file" where
  "encode readAsDataURL f =
     (case readAsDataURL f of
        None \<Rightarrow> Inl (Error (''Failed to read file '' @ name f))
      | Some base64Data \<Rightarrow>
          Inr \<lparr>name = name f, file_type = file_type f, file_size = file_size f,
               data = base64Data\<rparr>)"

fun promise_all :: "(error + 'a) list \<Rightarrow> error + 'a list" where
  "promise_all [] = Inr []"
| "promise_all (Inl e # ps) = Inl e"
| "promise_all (Inr x # ps) =
     (case promise_all ps of Inl e \<Rightarrow> Inl e | Inr xs \<Rightarrow> Inr (x # xs))"

definition processFiles ::
  "(browser_file \<Rightarrow> string option) \<Rightarrow> (uploaded_file list \<Rightarrow> 'u \<Rightarrow> 'u) \<Rightarrow> browser_file list
     \<Rightarrow> upload_ui \<Rightarrow> 'u \<Rightarrow> 'u upload_outcome" where
  "processFiles readAsDataURL onFileSelect files ui u =
     (let ui1 = ui\<lparr>upload_error := None\<rparr> in
      if length files = 0 then \<lparr>ui_after = ui1, reads = [], caller_after = u\<rparr>
      else (case validation files of
              Some msg \<Rightarrow>
                \<lparr>ui_after = ui1\<lparr>upload_error := Some msg\<rparr>, reads = [], caller_after = u\<rparr>
            | None \<Rightarrow>
                (case promise_all (map (encode readAsDataURL) files) of
                   Inr uploadedFiles \<Rightarrow>
                     \<lparr>ui_after = ui1\<lparr>upload_isLoading := False\<rparr>, reads = files,
                      caller_after = onFileSelect uploadedFiles u\<rparr>
                 | Inl e \<Rightarrow>
                     \<lparr>ui_after = ui1\<lparr>upload_error :=
                                     Some ''Failed to process files. Please try again.'',
                                   upload_isLoading := False\<rparr>,
                      reads = files, caller_after = u\<rparr>)))"

subsection \<open>The service module (\<^verbatim>\<open>geminiService.ts\<close>)\<close>

text \<open>
  A request to the remote service is a list of parts: inline attachments
  (\<^verbatim>\<open>inlineData: {data, mimeType}\<close>) and text.
\<close>

datatype part = InlineData (part_data: string) (mimeType: string) | Text string

text \<open>
  A \<^verbatim>\<open>Chat\<close> object is an opaque handle. The module owns one variable,
  \<^verbatim>\<open>chatSession\<close>; the other three fields record what the module has asked of the API
  client: the sessions \<^verbatim>\<open>ai.chats.create\<close> has returned, the messages issued through
  a session (with the session they went to) and the one-shot \<^verbatim>\<open>generateContent\<close>
  requests.
\<close>

type_synonym chat = nat

record service =
  chatSession :: "chat option"
  created :: "chat list"
  sent :: "(chat \<times> part list) list"
  generated :: "part list list"

text \<open>The module as loaded: \<^verbatim>\<open>let chatSession: Chat | null = null\<close>, nothing requested yet.\<close>

definition fresh_service :: service where
  "fresh_service = \<lparr>chatSession = None, created = [], sent = [], generated = []\<rparr>"

text \<open>
  What the API client answers. \<^verbatim>\<open>ai.chats.create\<close> throws or returns (its declared
  type excludes \<^verbatim>\<open>null\<close>, which the dispatcher tests for all the same). A streaming
  send throws or returns an asynchronous iterator, which yields chunks, each with an
  optional \<^verbatim>\<open>text\<close>, and then ends or throws. The one-shot request throws or returns
  a response with an optional \<^verbatim>\<open>text\<close>.
\<close>

datatype create_result = CreateThrows error | CreateReturns "chat option"

datatype chunk_stream =
  StreamEnd
| StreamThrows error
| StreamChunk "string option" chunk_stream

datatype send_result = SendThrows error | SendReturns chunk_stream

datatype generate_result = GenerateThrows error | GenerateReturns "string option"

definition initializeChat :: "create_result \<Rightarrow> service \<Rightarrow> error + service" where
  "initializeChat cr s =
     (case cr of
        CreateThrows e \<Rightarrow> Inl e
      | CreateReturns None \<Rightarrow> Inr (s\<lparr>chatSession := None\<rparr>)
      | CreateReturns (Some c) \<Rightarrow> Inr (s\<lparr>chatSession := Some c, created := created s @ [c]\<rparr>))"

text \<open>
  The first two statements of \<^verbatim>\<open>sendMessageStream\<close>: create the session if there is
  none, and fail if there is still none. The result is the session to use.
\<close>

definition ensureSession :: "create_result \<Rightarrow> service \<Rightarrow> error + chat \<times> service" where
  "ensureSession cr s =
     (case (if chatSession s = None then initializeChat cr s else Inr s) of
        Inl e \<Rightarrow> Inl e
      | Inr s1 \<Rightarrow>
          (case chatSession s1 of
             None \<Rightarrow> Inl (Error ''Failed to initialize chat session'')
           | Some c \<Rightarrow> Inr (c, s1)))"

text \<open>
  \<^verbatim>\<open>file.data.split(',')[1] || file.data\<close>, and the attachment part built from it
  (the same expression in \<^verbatim>\<open>generateSummary\<close> and in \<^verbatim>\<open>sendMessageStream\<close>).
\<close>

definition base64Data :: "string \<Rightarrow> string" where
  "base64Data d = or_else (at_index (split CHR '','' d) 1) d"

definition filePart :: "uploaded_file \<Rightarrow> part" where
  "filePart f = InlineData (base64Data (data f)) (file_type f)"

definition summary_instruction :: string where
  "summary_instruction = ''Please provide a concise and structured summary of all these documents. Highlight key takeaways, main topics, and any critical findings. Use bullet points where appropriate.''"

definition generateSummary ::
  "generate_result \<Rightarrow> uploaded_file list \<Rightarrow> service \<Rightarrow> (error + string) \<times> service" where
  "generateSummary gr files s =
     (let fileParts = map filePart files;
          s1 = s\<lparr>generated := generated s @ [fileParts @ [Text summary_instruction]]\<rparr>
      in case gr of
           GenerateThrows e \<Rightarrow> (Inl e, s1)
         | GenerateReturns t \<Rightarrow>
             (Inr (or_else t ''I was unable to generate a summary for these documents.''), s1))"

text \<open>
  The \<^verbatim>\<open>for await\<close> loop of \<^verbatim>\<open>sendMessageStream\<close>. \<open>fullResponse\<close> is the text
  assembled so far and \<open>u\<close> the state the optional callback \<^verbatim>\<open>onChunk\<close> acts on. A chunk
  whose text is absent or empty is skipped. When the iterator throws, the error is
  rethrown: the assembled text is lost, what the callback has done is not.
\<close>

fun consume ::
  "(string \<Rightarrow> 'u \<Rightarrow> 'u) option \<Rightarrow> chunk_stream \<Rightarrow> string \<Rightarrow> 'u \<Rightarrow> (error + string) \<times> 'u" where
  "consume onChunk StreamEnd fullResponse u = (Inr fullResponse, u)"
| "consume onChunk (StreamThrows e) fullResponse u = (Inl e, u)"
| "consume onChunk (StreamChunk chunkText rest) fullResponse u =
     (case chunkText of
        None \<Rightarrow> consume onChunk rest fullResponse u
      | Some t \<Rightarrow>
          if t = [] then consume onChunk rest fullResponse u
          else consume onChunk rest (fullResponse @ t)
                 (case onChunk of None \<Rightarrow> u | Some f \<Rightarrow> f (fullResponse @ t) u))"

text \<open>
  \<^verbatim>\<open>sendMessageStream(text, files, onChunk)\<close>. \<open>files\<close> is \<open>None\<close> for \<^verbatim>\<open>null\<close> or
  \<^verbatim>\<open>undefined\<close>. The message is recorded in \<open>sent\<close> when it is issued, whatever the
  answer.
\<close>

definition sendMessageStream ::
  "create_result \<Rightarrow> send_result \<Rightarrow> string \<Rightarrow> uploaded_file list option
     \<Rightarrow> (string \<Rightarrow> 'u \<Rightarrow> 'u) option \<Rightarrow> service \<Rightarrow> 'u \<Rightarrow> (error + string) \<times> service \<times> 'u" where
  "sendMessageStream cr sr txt files onChunk s u =
     (case ensureSession cr s of
        Inl e \<Rightarrow> (Inl e, s, u)
      | Inr (c, s1) \<Rightarrow>
          (let parts =
                 (case files of
                    None \<Rightarrow> [Text txt]
                  | Some fs \<Rightarrow>
                      if length fs > 0 then map filePart fs @ [Text txt] else [Text txt]);
               s2 = s1\<lparr>sent := sent s1 @ [(c, parts)]\<rparr>
           in case sr of
                SendThrows e \<Rightarrow> (Inl e, s2, u)
              | SendReturns result \<Rightarrow>
                  (case consume onChunk result [] u of (r, u') \<Rightarrow> (r, s2, u'))))"

subsection \<open>The chat view (\<^verbatim>\<open>ChatInterface.tsx\<close>)\<close>

text \<open>
  The state of one mounted \<^verbatim>\<open>ChatInterface\<close>: the \<^verbatim>\<open>useState\<close> cells that the send
  and summary handlers read or write (the export menu and the voice input have cells
  of their own, which these handlers do not touch). \<open>mount\<close> is the initial state.
\<close>

record chat_ui =
  messages :: "message list"
  inputValue :: string
  isLoading :: bool
  streamingContent :: string
  isSummaryModalOpen :: bool
  isSummarizing :: bool
  summaryContent :: string

definition mount :: chat_ui where
  "mount = \<lparr>messages = [], inputValue = [], isLoading = False, streamingContent = [],
            isSummaryModalOpen = False, isSummarizing = False, summaryContent = []\<rparr>"

text \<open>
  What the environment answers during one \<^verbatim>\<open>handleSendMessage\<close>: the API client's
  answers and the four readings of \<^verbatim>\<open>Date.now()\<close>, in the order the handler takes them.
\<close>

record send_env =
  create_answer :: create_result
  send_answer :: send_result
  now_user_id :: nat
  now_user_timestamp :: nat
  now_reply_id :: nat
  now_reply_timestamp :: nat

definition failure_text :: string where
  "failure_text = ''I'm sorry, I encountered an error while processing your request. Please try again.''"

text \<open>The three message objects that \<^verbatim>\<open>handleSendMessage\<close> builds.\<close>

definition userMessage :: "send_env \<Rightarrow> string \<Rightarrow> message" where
  "userMessage env userText =
     \<lparr>msg_id = toString (now_user_id env), role = User, msg_text = userText,
      timestamp = now_user_timestamp env, isError = None\<rparr>"

definition modelMessage :: "send_env \<Rightarrow> string \<Rightarrow> message" where
  "modelMessage env responseText =
     \<lparr>msg_id = toString (now_reply_id env + 1), role = Model, msg_text = responseText,
      timestamp = now_reply_timestamp env, isError = None\<rparr>"

definition errorMessage :: "send_env \<Rightarrow> message" where
  "errorMessage env =
     \<lparr>msg_id = toString (now_reply_id env + 1), role = Model, msg_text = failure_text,
      timestamp = now_reply_timestamp env, isError = Some True\<rparr>"

text \<open>
  \<^verbatim>\<open>handleSendMessage\<close>, from the click to the end of its \<^verbatim>\<open>finally\<close> block. \<open>files\<close>
  is the component's property. The handler reads \<^verbatim>\<open>messages\<close> as it was when the handler
  was called; the progress callback it passes sets \<^verbatim>\<open>streamingContent\<close>.
\<close>

definition handleSendMessage ::
  "send_env \<Rightarrow> uploaded_file list \<Rightarrow> chat_ui \<Rightarrow> service \<Rightarrow> chat_ui \<times> service" where
  "handleSendMessage env files ui s =
     (if trim (inputValue ui) = [] \<or> isLoading ui then (ui, s)
      else
        let userText = trim (inputValue ui);
            ui1 = ui\<lparr>inputValue := [], messages := messages ui @ [userMessage env userText],
                     isLoading := True, streamingContent := []\<rparr>;
            isFirstMessage = (length (messages ui) = 0)
        in case sendMessageStream (create_answer env) (send_answer env) userText
                  (if isFirstMessage then Some files else None)
                  (Some (\<lambda>chunk v. v\<lparr>streamingContent := chunk\<rparr>)) s ui1 of
             (Inr responseText, s', ui2) \<Rightarrow>
               (ui2\<lparr>messages := messages ui2 @ [modelMessage env responseText],
                     isLoading := False, streamingContent := []\<rparr>, s')
           | (Inl e, s', ui2) \<Rightarrow>
               (ui2\<lparr>messages := messages ui2 @ [errorMessage env],
                     isLoading := False, streamingContent := []\<rparr>, s'))"

definition summary_failure_text :: string where
  "summary_failure_text = ''Failed to generate summary. Please check your connection and try again.''"

definition handleGenerateSummary ::
  "generate_result \<Rightarrow> uploaded_file list \<Rightarrow> chat_ui \<Rightarrow> service \<Rightarrow> chat_ui \<times> service" where
  "handleGenerateSummary gr files ui s =
     (if isSummarizing ui then (ui, s)
      else
        let ui1 = ui\<lparr>isSummarizing := True, isSummaryModalOpen := True\<rparr>
        in case generateSummary gr files s of
             (Inr summary, s') \<Rightarrow>
               (ui1\<lparr>summaryContent := summary, isSummarizing := False\<rparr>, s')
           | (Inl e, s') \<Rightarrow>
               (ui1\<lparr>summaryContent := summary_failure_text, isSummarizing := False\<rparr>, s'))"

subsection \<open>The application shell (\<^verbatim>\<open>App.tsx\<close>)\<close>

text \<open>
  \<^verbatim>\<open>App\<close> holds \<^verbatim>\<open>appState\<close> and \<^verbatim>\<open>currentFiles\<close>, and renders a \<^verbatim>\<open>ChatInterface\<close>
  exactly when \<^verbatim>\<open>appState === CHAT && currentFiles.length > 0\<close>. \<open>chatInterface\<close> is
  the state of the rendered chat view, if there is one: a view that starts being
  rendered is mounted with its initial state, and one that stops being rendered is
  discarded with its state. The module variable \<^verbatim>\<open>chatSession\<close> is no part of it.
\<close>

record app =
  appState :: AppState
  currentFiles :: "uploaded_file list"
  chatInterface :: "chat_ui option"

definition render :: "app \<Rightarrow> app" where
  "render a =
     (if appState a = CHAT \<and> length (currentFiles a) > 0
      then (case chatInterface a of
              None \<Rightarrow> a\<lparr>chatInterface := Some mount\<rparr>
            | Some v \<Rightarrow> a)
      else a\<lparr>chatInterface := None\<rparr>)"

definition initial_app :: app where
  "initial_app = render \<lparr>appState = UPLOAD, currentFiles = [], chatInterface = None\<rparr>"

definition handleFileSelect :: "uploaded_file list \<Rightarrow> app \<Rightarrow> app" where
  "handleFileSelect files a = render (a\<lparr>currentFiles := files, appState := CHAT\<rparr>)"

text \<open>\<^verbatim>\<open>handleBack\<close>; \<open>confirmed\<close> is the answer of \<^verbatim>\<open>window.confirm\<close>.\<close>

definition handleBack :: "bool \<Rightarrow> app \<Rightarrow> app" where
  "handleBack confirmed a =
     (if confirmed then render (a\<lparr>appState := UPLOAD, currentFiles := []\<rparr>) else a)"

text \<open>
  The user's actions on the chat view inside the application: typing into the input
  field (\<^verbatim>\<open>onChange\<close> sets \<^verbatim>\<open>inputValue\<close>) and sending, which runs
  \<^verbatim>\<open>handleSendMessage\<close> with the application's current files as the property.
\<close>

definition type_input :: "string \<Rightarrow> app \<Rightarrow> app" where
  "type_input v a =
     (case chatInterface a of
        None \<Rightarrow> a
      | Some ui \<Rightarrow> a\<lparr>chatInterface := Some (ui\<lparr>inputValue := v\<rparr>)\<rparr>)"

definition click_send :: "send_env \<Rightarrow> app \<times> service \<Rightarrow> app \<times> service" where
  "click_send env = (\<lambda>(a, s).
     (case chatInterface a of
        None \<Rightarrow> (a, s)
      | Some ui \<Rightarrow>
          (case handleSendMessage env (currentFiles a) ui s of
             (ui', s') \<Rightarrow> (a\<lparr>chatInterface := Some ui'\<rparr>, s'))))"

subsection \<open>Notions used in the statements\<close>

text \<open>
  A file violates the upload constraints when its declared type is not the PDF type or
  its size exceeds 20 MiB.
\<close>

definition violates :: "browser_file \<Rightarrow> bool" where
  "violates f \<longleftrightarrow> file_type f \<noteq> ''application/pdf'' \<or> file_size f > 20 * 1024 * 1024"

text \<open>
  A finite stream of response fragments that ends normally, and one that throws after
  the fragments.
\<close>

definition stream_of :: "string option list \<Rightarrow> chunk_stream" where
  "stream_of frags = foldr StreamChunk frags StreamEnd"

definition failing_stream :: "string option list \<Rightarrow> error \<Rightarrow> chunk_stream" where
  "failing_stream frags e = foldr StreamChunk frags (StreamThrows e)"

text \<open>The texts of the fragments that carry a text which is not empty, in order.\<close>

fun fragment_texts :: "string option list \<Rightarrow> string list" where
  "fragment_texts [] = []"
| "fragment_texts (None # frags) = fragment_texts frags"
| "fragment_texts (Some t # frags) =
     (if t = [] then fragment_texts frags else t # fragment_texts frags)"

text \<open>
  The running totals of a list of texts: the \<open>n\<close>-th is the concatenation of the first
  \<open>n\<close> texts, for \<open>n\<close> from 1 to the number of texts.
\<close>

definition running_totals :: "string list \<Rightarrow> string list" where
  "running_totals ts = map (\<lambda>n. concat (take n ts)) [1..<Suc (length ts)]"

text \<open>A progress callback that records every value it is given.\<close>

definition observe :: "string \<Rightarrow> string list \<Rightarrow> string list" where
  "observe t seen = seen @ [t]"

text \<open>
  Any sequence of dispatches, each with what the API client answers to it, its text
  and its files; the progress callback is left out.
\<close>

fun send_all ::
  "(create_result \<times> send_result \<times> string \<times> uploaded_file list option) list
     \<Rightarrow> service \<Rightarrow> service" where
  "send_all [] s = s"
| "send_all ((cr, sr, txt, files) # calls) s =
     send_all calls (fst (snd (sendMessageStream cr sr txt files None s ())))"

text \<open>
  The sessions created so far are exactly the one the module holds, if it holds one.
\<close>

definition session_inv :: "service \<Rightarrow> bool" where
  "session_inv s \<longleftrightarrow> created s = (case chatSession s of None \<Rightarrow> [] | Some c \<Rightarrow> [c])"

text \<open>
  What is transmitted for the files: the data of the inline attachments of a request,
  in order; the attachment data of the one-shot requests that a summary call adds to
  the record; and the attachment data of the messages that a dispatch with files adds.
\<close>

fun inline_data :: "part list \<Rightarrow> string list" where
  "inline_data [] = []"
| "inline_data (InlineData d m # ps) = d # inline_data ps"
| "inline_data (Text t # ps) = inline_data ps"

definition summary_payloads :: "generate_result \<Rightarrow> uploaded_file list \<Rightarrow> service \<Rightarrow> string list" where
  "summary_payloads gr files s =
     concat (map inline_data
       (drop (length (generated s)) (generated (snd (generateSummary gr files s)))))"

definition message_payloads ::
  "create_result \<Rightarrow> send_result \<Rightarrow> string \<Rightarrow> uploaded_file list \<Rightarrow> service \<Rightarrow> string list" where
  "message_payloads cr sr txt files s =
     concat (map (\<lambda>m. inline_data (snd m))
       (drop (length (sent s))
          (sent (fst (snd (sendMessageStream cr sr txt (Some files) None s ()))))))"

subsection \<open>Example inputs\<close>

text \<open>
  Two encoded PDF files, and what the environment answers during a send: a session
  \<open>c\<close> if one is created, then either a stream of fragments that ends normally
  (\<open>answering\<close>) or one that throws after its fragments (\<open>breaking\<close>); \<open>t\<close> is the
  clock.
\<close>

definition report_pdf :: uploaded_file where
  "report_pdf = \<lparr>name = ''report.pdf'', file_type = ''application/pdf'', file_size = 2000000,
                  data = ''data:application/pdf;base64,QUJD''\<rparr>"

definition annex_pdf :: uploaded_file where
  "annex_pdf = \<lparr>name = ''annex.pdf'', file_type = ''application/pdf'', file_size = 3000000,
                 data = ''data:application/pdf;base64,RUZH''\<rparr>"

definition answering :: "chat \<Rightarrow> string option list \<Rightarrow> nat \<Rightarrow> send_env" where
  "answering c frags t =
     \<lparr>create_answer = CreateReturns (Some c), send_answer = SendReturns (stream_of frags),
      now_user_id = t, now_user_timestamp = t, now_reply_id = t + 5,
      now_reply_timestamp = t + 6\<rparr>"

definition breaking :: "chat \<Rightarrow> string option list \<Rightarrow> nat \<Rightarrow> send_env" where
  "breaking c frags t =
     \<lparr>create_answer = CreateReturns (Some c),
      send_answer = SendReturns (failing_stream frags (Error ''connection lost'')),
      now_user_id = t, now_user_timestamp = t, now_reply_id = t + 5,
      now_reply_timestamp = t + 6\<rparr>"

section \<open>Properties\<close>

subsection \<open>Splitting at commas\<close>

lemma split_not_Nil: "split sep s \<noteq> []"
  by (induction s) (auto split: list.splits)

lemma split_no_sep: "sep \<notin> set s \<Longrightarrow> split sep s = [s]"
  by (induction s) auto

lemma split_first_sep: "sep \<notin> set a \<Longrightarrow> split sep (a @ sep # b) = a # split sep b"
  by (induction a) auto

lemma base64Data_no_comma: "CHR '','' \<notin> set d \<Longrightarrow> base64Data d = d"
  by (simp add: base64Data_def split_no_sep at_index_def or_else_def)

lemma base64Data_one_comma:
  assumes "CHR '','' \<notin> set a" "CHR '','' \<notin> set b"
  shows "base64Data (a @ CHR '','' # b) = (if b = [] then a @ CHR '','' # b else b)"
  using assms
  by (simp add: base64Data_def split_first_sep split_no_sep at_index_def or_else_def)

lemma base64Data_two_commas:
  assumes "CHR '','' \<notin> set a" "CHR '','' \<notin> set b"
  shows "base64Data (a @ CHR '','' # b @ CHR '','' # c)
         = (if b = [] then a @ CHR '','' # b @ CHR '','' # c else b)"
  using assms by (simp add: base64Data_def split_first_sep at_index_def or_else_def)

text \<open>
  For a payload that is not empty and has no comma, as every base64 text has, the
  data URL and the bare payload are transmitted as the same bytes.
\<close>

lemma base64Data_data_url:
  assumes "CHR '','' \<notin> set mime" "CHR '','' \<notin> set payload" "payload \<noteq> []"
  shows "base64Data (''data:'' @ mime @ '';base64,'' @ payload) = payload"
    and "base64Data payload = payload"
  using assms base64Data_one_comma [of "''data:'' @ mime @ '';base64''" payload]
    base64Data_no_comma [of payload]
  by simp_all

text \<open>
  C6. Stripping the data-URL prefix is meant to leave the payload as it would be
  without the prefix. For the empty payload, which is what reading a file of no bytes
  gives, it does not: the segment after the comma is empty, hence falsy, and the
  expression falls back to the whole data URL, while the bare empty payload is
  transmitted as the empty string.
\<close>

theorem base64Data_empty_payload:
  "base64Data (''data:application/pdf;base64,'' @ []) = ''data:application/pdf;base64,''
   \<and> base64Data [] = []
   \<and> filePart \<lparr>name = ''empty.pdf'', file_type = ''application/pdf'', file_size = 0,
                 data = ''data:application/pdf;base64,''\<rparr>
       = InlineData ''data:application/pdf;base64,'' ''application/pdf''"
  by code_simp

subsection \<open>The summary request\<close>

text \<open>
  C9. A summary request that the service answers never yields the empty string: an
  absent or empty response text is replaced by the fixed fallback sentence, and any
  other text is returned as it is.
\<close>

theorem generateSummary_never_empty:
  "fst (generateSummary (GenerateReturns t) files s) \<noteq> Inr []
   \<and> (t = None \<or> t = Some [] \<longrightarrow>
        fst (generateSummary (GenerateReturns t) files s)
          = Inr ''I was unable to generate a summary for these documents.'')
   \<and> (\<forall>r. t = Some r \<and> r \<noteq> [] \<longrightarrow>
        fst (generateSummary (GenerateReturns t) files s) = Inr r)"
  by (auto simp: generateSummary_def or_else_def Let_def split: option.splits)

theorem generateSummary_never_empty_witness:
  "fst (generateSummary (GenerateReturns (Some [])) [] fresh_service)
     = Inr ''I was unable to generate a summary for these documents.''
   \<and> fst (generateSummary (GenerateReturns None) [] fresh_service)
     = Inr ''I was unable to generate a summary for these documents.''
   \<and> fst (generateSummary (GenerateReturns (Some ''Two topics.'')) [] fresh_service)
     = Inr ''Two topics.''"
  using generateSummary_never_empty [of "Some []" "[]" fresh_service]
    generateSummary_never_empty [of None "[]" fresh_service]
    generateSummary_never_empty [of "Some ''Two topics.''" "[]" fresh_service]
  by simp

subsection \<open>Batch validation\<close>

lemma validation_None: "validation files = None \<longleftrightarrow> (\<forall>f \<in> set files. \<not> violates f)"
  by (induction files) (auto simp: violates_def)

text \<open>
  A failed validation stops at the first violating file in order, and its message is
  the one the loop body sets for that file.
\<close>

lemma validation_first:
  assumes "validation files = Some msg"
  shows "\<exists>pre f post. files = pre @ f # post \<and> (\<forall>g \<in> set pre. \<not> violates g) \<and> violates f
           \<and> msg = (if file_type f \<noteq> ''application/pdf'' then ''Only PDF files are allowed.''
                    else ''File \"'' @ name f @ ''\" exceeds 20MB limit.'')"
  using assms
proof (induction files)
  case Nil
  then show ?case by simp
next
  case (Cons a files)
  show ?case
  proof (cases "violates a")
    case True
    with Cons.prems have
      "msg = (if file_type a \<noteq> ''application/pdf'' then ''Only PDF files are allowed.''
              else ''File \"'' @ name a @ ''\" exceeds 20MB limit.'')"
      by (auto simp: violates_def split: if_splits)
    with True have
      "a # files = [] @ a # files \<and> (\<forall>g \<in> set []. \<not> violates g) \<and> violates a
       \<and> msg = (if file_type a \<noteq> ''application/pdf'' then ''Only PDF files are allowed.''
                else ''File \"'' @ name a @ ''\" exceeds 20MB limit.'')"
      by simp
    then show ?thesis by blast
  next
    case False
    with Cons.prems have "validation files = Some msg"
      by (auto simp: violates_def split: if_splits)
    from Cons.IH [OF this] obtain pre f post where
      h: "files = pre @ f # post" "\<forall>g \<in> set pre. \<not> violates g" "violates f"
        "msg = (if file_type f \<noteq> ''application/pdf'' then ''Only PDF files are allowed.''
                else ''File \"'' @ name f @ ''\" exceeds 20MB limit.'')"
      by blast
    from h False have
      "a # files = (a # pre) @ f # post \<and> (\<forall>g \<in> set (a # pre). \<not> violates g) \<and> violates f
       \<and> msg = (if file_type f \<noteq> ''application/pdf'' then ''Only PDF files are allowed.''
                else ''File \"'' @ name f @ ''\" exceeds 20MB limit.'')"
      by simp
    then show ?thesis by blast
  qed
qed

text \<open>
  C4. Batch validation is atomic. If any file of the batch has a declared type other
  than \<^verbatim>\<open>application/pdf\<close> or a size above \<open>20 * 1024 * 1024\<close> bytes, the batch is
  rejected with the message for the first violating file in order, no file is handed to
  a reader, and the file-select callback is not run (the caller's state is as before,
  whatever the callback).
\<close>

theorem processFiles_atomic:
  assumes "\<exists>f \<in> set files. file_type f \<noteq> ''application/pdf'' \<or> file_size f > 20 * 1024 * 1024"
  shows "\<exists>pre f post msg.
           files = pre @ f # post \<and> (\<forall>g \<in> set pre. \<not> violates g) \<and> violates f
           \<and> msg = (if file_type f \<noteq> ''application/pdf'' then ''Only PDF files are allowed.''
                    else ''File \"'' @ name f @ ''\" exceeds 20MB limit.'')
           \<and> processFiles readAsDataURL onFileSelect files ui u
               = \<lparr>ui_after = ui\<lparr>upload_error := Some msg\<rparr>, reads = [], caller_after = u\<rparr>"
proof -
  from assms have "validation files \<noteq> None"
    by (simp add: validation_None violates_def)
  then obtain msg where m: "validation files = Some msg" by blast
  from assms have ne: "files \<noteq> []" by auto
  from m ne have
    "processFiles readAsDataURL onFileSelect files ui u
       = \<lparr>ui_after = ui\<lparr>upload_error := Some msg\<rparr>, reads = [], caller_after = u\<rparr>"
    by (simp add: processFiles_def)
  with validation_first [OF m] show ?thesis by blast
qed

theorem processFiles_atomic_witness:
  "(\<exists>f \<in> set [\<lparr>name = ''report.pdf'', file_type = ''application/pdf'', file_size = 2000000\<rparr>,
                  \<lparr>name = ''scan.pdf'', file_type = ''application/pdf'', file_size = 20971521\<rparr>,
                  \<lparr>name = ''notes.txt'', file_type = ''text/plain'', file_size = 10\<rparr>].
       file_type f \<noteq> ''application/pdf'' \<or> file_size f > 20 * 1024 * 1024)
   \<and> processFiles (\<lambda>f. Some ''data:application/pdf;base64,QUJD'') handleFileSelect
        [\<lparr>name = ''report.pdf'', file_type = ''application/pdf'', file_size = 2000000\<rparr>,
         \<lparr>name = ''scan.pdf'', file_type = ''application/pdf'', file_size = 20971521\<rparr>,
         \<lparr>name = ''notes.txt'', file_type = ''text/plain'', file_size = 10\<rparr>]
        \<lparr>upload_error = None, upload_isLoading = False\<rparr> initial_app
     = \<lparr>ui_after = \<lparr>upload_error = Some ''File \"scan.pdf\" exceeds 20MB limit.'',
                      upload_isLoading = False\<rparr>,
        reads = [], caller_after = initial_app\<rparr>"
proof -
  have h: "\<exists>f \<in> set [\<lparr>name = ''report.pdf'', file_type = ''application/pdf'', file_size = 2000000\<rparr>,
                  \<lparr>name = ''scan.pdf'', file_type = ''application/pdf'', file_size = 20971521\<rparr>,
                  \<lparr>name = ''notes.txt'', file_type = ''text/plain'', file_size = 10\<rparr>].
       file_type f \<noteq> ''application/pdf'' \<or> file_size f > 20 * 1024 * 1024"
    by simp
  have g: "processFiles (\<lambda>f. Some ''data:application/pdf;base64,QUJD'') handleFileSelect
        [\<lparr>name = ''report.pdf'', file_type = ''application/pdf'', file_size = 2000000\<rparr>,
         \<lparr>name = ''scan.pdf'', file_type = ''application/pdf'', file_size = 20971521\<rparr>,
         \<lparr>name = ''notes.txt'', file_type = ''text/plain'', file_size = 10\<rparr>]
        \<lparr>upload_error = None, upload_isLoading = False\<rparr> initial_app
     = \<lparr>ui_after = \<lparr>upload_error = Some ''File \"scan.pdf\" exceeds 20MB limit.'',
                      upload_isLoading = False\<rparr>,
        reads = [], caller_after = initial_app\<rparr>"
    by (simp add: processFiles_def)
  from processFiles_atomic [OF h] h g show ?thesis by blast
qed

text \<open>
  C5, as the code has it. The report of a rejected batch is determined by the first
  violating file. For a file over the size limit the message is
  \<^verbatim>\<open>File "<name>" exceeds 20MB limit.\<close>, which contains the file's name. For a file of
  the wrong type the message is the fixed sentence \<^verbatim>\<open>Only PDF files are allowed.\<close>,
  which states the constraint and names no file.
\<close>

theorem validation_report:
  assumes "validation files = Some msg"
  shows "\<exists>pre f post.
           files = pre @ f # post \<and> (\<forall>g \<in> set pre. \<not> violates g)
           \<and> (if file_type f \<noteq> ''application/pdf'' then msg = ''Only PDF files are allowed.''
               else file_size f > 20 * 1024 * 1024
                    \<and> msg = ''File \"'' @ name f @ ''\" exceeds 20MB limit.''
                    \<and> sublist (name f) msg)"
proof -
  from validation_first [OF assms] obtain pre f post where
    h: "files = pre @ f # post" "\<forall>g \<in> set pre. \<not> violates g" "violates f"
       "msg = (if file_type f \<noteq> ''application/pdf'' then ''Only PDF files are allowed.''
               else ''File \"'' @ name f @ ''\" exceeds 20MB limit.'')"
    by blast
  have "sublist (name f) (''File \"'' @ name f @ ''\" exceeds 20MB limit.'')"
    by (rule sublist_appendI)
  with h have
    "files = pre @ f # post \<and> (\<forall>g \<in> set pre. \<not> violates g)
     \<and> (if file_type f \<noteq> ''application/pdf'' then msg = ''Only PDF files are allowed.''
         else file_size f > 20 * 1024 * 1024
              \<and> msg = ''File \"'' @ name f @ ''\" exceeds 20MB limit.''
              \<and> sublist (name f) msg)"
    by (simp add: violates_def)
  then show ?thesis by blast
qed

theorem validation_report_witness:
  "validation [\<lparr>name = ''report.pdf'', file_type = ''application/pdf'', file_size = 2000000\<rparr>,
               \<lparr>name = ''scan.pdf'', file_type = ''application/pdf'', file_size = 20971521\<rparr>]
     = Some ''File \"scan.pdf\" exceeds 20MB limit.''
   \<and> (\<exists>pre f post.
         [\<lparr>name = ''report.pdf'', file_type = ''application/pdf'', file_size = 2000000\<rparr>,
          \<lparr>name = ''scan.pdf'', file_type = ''application/pdf'', file_size = 20971521\<rparr>]
           = pre @ f # post
         \<and> sublist (name f) ''File \"scan.pdf\" exceeds 20MB limit.'')"
proof -
  have h: "validation [\<lparr>name = ''report.pdf'', file_type = ''application/pdf'', file_size = 2000000\<rparr>,
               \<lparr>name = ''scan.pdf'', file_type = ''application/pdf'', file_size = 20971521\<rparr>]
     = Some ''File \"scan.pdf\" exceeds 20MB limit.''"
    by simp
  from validation_report [OF h] obtain pre f post where
    d: "[\<lparr>name = ''report.pdf'', file_type = ''application/pdf'', file_size = 2000000\<rparr>,
         \<lparr>name = ''scan.pdf'', file_type = ''application/pdf'', file_size = 20971521\<rparr>]
          = pre @ f # post"
    and r: "if file_type f \<noteq> ''application/pdf''
            then ''File \"scan.pdf\" exceeds 20MB limit.'' = ''Only PDF files are allowed.''
            else file_size f > 20 * 1024 * 1024
                 \<and> ''File \"scan.pdf\" exceeds 20MB limit.''
                     = ''File \"'' @ name f @ ''\" exceeds 20MB limit.''
                 \<and> sublist (name f) ''File \"scan.pdf\" exceeds 20MB limit.''"
    by blast
  from r have "sublist (name f) ''File \"scan.pdf\" exceeds 20MB limit.''"
    by (simp split: if_splits)
  with h d show ?thesis by blast
qed

text \<open>
  The claim as stated fails for a wrong type: the file \<^verbatim>\<open>notes.txt\<close> of type
  \<^verbatim>\<open>text/plain\<close> is rejected with a message in which its name does not occur, and
  another file of a wrong type is rejected with the very same message.
\<close>

theorem validation_wrong_type_unnamed:
  "validation [\<lparr>name = ''notes.txt'', file_type = ''text/plain'', file_size = 10\<rparr>]
     = Some ''Only PDF files are allowed.''
   \<and> \<not> sublist ''notes.txt'' ''Only PDF files are allowed.''
   \<and> validation [\<lparr>name = ''draft.docx'', file_type = ''application/msword'', file_size = 10\<rparr>]
     = Some ''Only PDF files are allowed.''"
  by code_simp

subsection \<open>The session handle\<close>

text \<open>
  \<^verbatim>\<open>initializeChat\<close> by itself is unguarded: it replaces whatever session the module
  holds. The guard is in the dispatcher, its only caller.
\<close>

lemma initializeChat_replaces:
  "initializeChat (CreateReturns (Some c)) s
     = Inr (s\<lparr>chatSession := Some c, created := created s @ [c]\<rparr>)"
  by (simp add: initializeChat_def)

lemma ensureSession_existing: "chatSession s = Some c \<Longrightarrow> ensureSession cr s = Inr (c, s)"
  by (simp add: ensureSession_def)

lemma ensureSession_session: "ensureSession cr s = Inr (c, s1) \<Longrightarrow> chatSession s1 = Some c"
  by (auto simp: ensureSession_def initializeChat_def
      split: if_splits create_result.splits option.splits sum.splits)

lemma ensureSession_created:
  "ensureSession cr s = Inr (c, s1) \<Longrightarrow>
     created s1 = created s @ (if chatSession s = None then [c] else [])
     \<and> sent s1 = sent s \<and> generated s1 = generated s"
  by (auto simp: ensureSession_def initializeChat_def
      split: if_splits create_result.splits option.splits sum.splits)

lemma sendMessageStream_service:
  "fst (snd (sendMessageStream cr sr txt files onChunk s u))
     = (case ensureSession cr s of
          Inl e \<Rightarrow> s
        | Inr (c, s1) \<Rightarrow>
            s1\<lparr>sent := sent s1 @
                  [(c, (case files of None \<Rightarrow> [] | Some fs \<Rightarrow> map filePart fs) @ [Text txt])]\<rparr>)"
  by (cases files)
     (auto simp: sendMessageStream_def Let_def split: sum.splits send_result.splits prod.splits)

lemma ensureSession_inv:
  assumes "session_inv s" "ensureSession cr s = Inr (c, s1)"
  shows "session_inv s1"
proof (cases "chatSession s")
  case None
  with assms ensureSession_created [OF assms(2)] ensureSession_session [OF assms(2)]
  show ?thesis by (simp add: session_inv_def)
next
  case (Some c')
  from ensureSession_existing [OF Some, of cr] assms show ?thesis by simp
qed

lemma sendMessageStream_inv:
  assumes "session_inv s"
  shows "session_inv (fst (snd (sendMessageStream cr sr txt files onChunk s u)))"
proof (cases "ensureSession cr s")
  case (Inl e)
  with assms show ?thesis by (simp add: sendMessageStream_service)
next
  case (Inr p)
  obtain c s1 where p: "p = (c, s1)" by (cases p)
  from ensureSession_inv [OF assms] Inr p have "session_inv s1" by simp
  with Inr p show ?thesis by (simp add: sendMessageStream_service session_inv_def)
qed

lemma send_all_inv: "session_inv s \<Longrightarrow> session_inv (send_all calls s)"
  by (induction calls arbitrary: s) (auto simp: sendMessageStream_inv)

text \<open>
  C2. Ensuring the session is idempotent. In a state that holds a session, the ensure
  step of the dispatcher returns that session and leaves the state as it is, so
  nothing is created.
  Called twice in a row, it returns the same session the second time, again without a
  change of state. Over any sequence of dispatches from the freshly loaded module, with
  whatever the API client answers, at most one session is ever created; so there is at
  most one for any document set.
\<close>

theorem ensureSession_idempotent:
  "(chatSession s = Some c \<longrightarrow> ensureSession cr s = Inr (c, s))
   \<and> (ensureSession cr s = Inr (c, s1) \<longrightarrow> ensureSession cr' s1 = Inr (c, s1))
   \<and> length (created (send_all calls fresh_service)) \<le> 1"
proof -
  have "session_inv fresh_service"
    by (simp add: session_inv_def fresh_service_def)
  then have "session_inv (send_all calls fresh_service)"
    by (rule send_all_inv)
  then have "length (created (send_all calls fresh_service)) \<le> 1"
    by (simp add: session_inv_def split: option.splits)
  then show ?thesis
    using ensureSession_existing [of s c cr] ensureSession_session [of cr s c s1]
      ensureSession_existing [of s1 c cr']
    by blast
qed

theorem ensureSession_idempotent_witness:
  "ensureSession (CreateReturns (Some 2)) (fresh_service\<lparr>chatSession := Some 1, created := [1]\<rparr>)
     = Inr (1, fresh_service\<lparr>chatSession := Some 1, created := [1]\<rparr>)
   \<and> ensureSession (CreateReturns (Some 1)) fresh_service
     = Inr (1, fresh_service\<lparr>chatSession := Some 1, created := [1]\<rparr>)
   \<and> created (send_all [(CreateReturns (Some 1), SendThrows (Error ''offline''), ''a'', None),
                         (CreateReturns (Some 2), SendReturns StreamEnd, ''b'', None)]
                fresh_service) = [1]"
proof -
  have a: "chatSession (fresh_service\<lparr>chatSession := Some 1, created := [1]\<rparr>) = Some 1"
    by simp
  have b: "ensureSession (CreateReturns (Some 1)) fresh_service
     = Inr (1, fresh_service\<lparr>chatSession := Some 1, created := [1]\<rparr>)"
    by (simp add: ensureSession_def initializeChat_def fresh_service_def)
  have c: "created (send_all [(CreateReturns (Some 1), SendThrows (Error ''offline''), ''a'', None),
                         (CreateReturns (Some 2), SendReturns StreamEnd, ''b'', None)]
                fresh_service) = [1]"
    by (simp add: sendMessageStream_def ensureSession_def initializeChat_def fresh_service_def)
  from ensureSession_idempotent [of "fresh_service\<lparr>chatSession := Some 1, created := [1]\<rparr>" 1
      "CreateReturns (Some 2)" "fresh_service\<lparr>chatSession := Some 1, created := [1]\<rparr>"
      "CreateReturns (Some 2)" "[]"] a b c
  show ?thesis by simp
qed

subsection \<open>What is transmitted for a file\<close>

text \<open>
  Both entry points transmit, for every file, what
  \<^verbatim>\<open>file.data.split(',')[1] || file.data\<close> gives for its data.
\<close>

lemma inline_data_fileParts:
  "inline_data (map filePart files @ [Text t]) = map (\<lambda>f. base64Data (data f)) files"
  by (induction files) (simp_all add: filePart_def)

lemma summary_payloads_eq:
  "summary_payloads gr files s = map (\<lambda>f. base64Data (data f)) files"
  by (cases gr)
     (simp_all add: summary_payloads_def generateSummary_def Let_def inline_data_fileParts)

lemma message_payloads_eq:
  assumes "ensureSession cr s = Inr (c, s1)"
  shows "message_payloads cr sr txt files s = map (\<lambda>f. base64Data (data f)) files"
proof -
  from ensureSession_created [OF assms] have "sent s1 = sent s" by simp
  with assms show ?thesis
    by (simp add: message_payloads_def sendMessageStream_service inline_data_fileParts)
qed

text \<open>
  C10, as the code has it. The edge behaviour of the prefix stripping at the public
  interface, for a file \<open>f\<close> sent alone by the summary request or by a dispatch that
  has a session. If the data has no comma, it is transmitted unchanged. If the segment
  between the first and the second comma is empty (also when the data ends at its
  first comma), the whole data, prefix included, is transmitted. If the data has two
  or more commas and that segment is not empty, the segment alone is transmitted,
  not everything after the first comma. Here \<open>a\<close> is the text before the first comma,
  \<open>b\<close> the segment up to the second and \<open>r\<close> the rest.
\<close>

theorem transmitted_edges:
  assumes "ensureSession cr s = Inr (c, s1)"
  shows "(CHR '','' \<notin> set (data f) \<longrightarrow>
            summary_payloads gr [f] s = [data f]
            \<and> message_payloads cr sr msg [f] s = [data f])
         \<and> (CHR '','' \<notin> set a \<and> (data f = a @ '','' \<or> data f = a @ '','' @ '','' @ r) \<longrightarrow>
            summary_payloads gr [f] s = [data f]
            \<and> message_payloads cr sr msg [f] s = [data f])
         \<and> (CHR '','' \<notin> set a \<and> CHR '','' \<notin> set b \<and> b \<noteq> []
              \<and> data f = a @ '','' @ b @ '','' @ r \<longrightarrow>
            summary_payloads gr [f] s = [b]
            \<and> message_payloads cr sr msg [f] s = [b]
            \<and> b \<noteq> b @ '','' @ r)"
proof -
  have p: "summary_payloads gr [f] s = [base64Data (data f)]"
    "message_payloads cr sr msg [f] s = [base64Data (data f)]"
    by (simp_all add: summary_payloads_eq message_payloads_eq [OF assms])
  have c1: "base64Data (data f) = data f" if "CHR '','' \<notin> set (data f)"
    using that by (rule base64Data_no_comma)
  have c2: "base64Data (data f) = data f"
    if "CHR '','' \<notin> set a" "data f = a @ '','' \<or> data f = a @ '','' @ '','' @ r"
    using that base64Data_one_comma [of a "[]"] base64Data_two_commas [of a "[]" r]
    by auto
  have c3: "base64Data (data f) = b"
    if "CHR '','' \<notin> set a" "CHR '','' \<notin> set b" "b \<noteq> []" "data f = a @ '','' @ b @ '','' @ r"
    using that base64Data_two_commas [of a b r] by simp
  from c1 c2 c3 show ?thesis
    unfolding p by simp
qed

theorem transmitted_edges_witness:
  "ensureSession (CreateReturns (Some 1)) fresh_service
     = Inr (1, fresh_service\<lparr>chatSession := Some 1, created := [1]\<rparr>)
   \<and> summary_payloads (GenerateReturns None)
       [\<lparr>name = ''a.pdf'', file_type = ''application/pdf'', file_size = 3, data = ''QUJD''\<rparr>]
       fresh_service = [''QUJD'']
   \<and> message_payloads (CreateReturns (Some 1)) (SendReturns StreamEnd) ''q''
       [\<lparr>name = ''a.pdf'', file_type = ''application/pdf'', file_size = 0,
         data = ''data:application/pdf;base64,''\<rparr>]
       fresh_service = [''data:application/pdf;base64,'']
   \<and> summary_payloads (GenerateReturns None)
       [\<lparr>name = ''a.pdf'', file_type = ''application/pdf'', file_size = 6,
         data = ''data:x,QUJD,RUZH''\<rparr>]
       fresh_service = [''QUJD'']
   \<and> message_payloads (CreateReturns (Some 1)) (SendReturns StreamEnd) ''q''
       [\<lparr>name = ''a.pdf'', file_type = ''application/pdf'', file_size = 6,
         data = ''data:x,QUJD,RUZH''\<rparr>]
       fresh_service = [''QUJD'']"
proof -
  have h: "ensureSession (CreateReturns (Some 1)) fresh_service
     = Inr (1, fresh_service\<lparr>chatSession := Some 1, created := [1]\<rparr>)"
    by (simp add: ensureSession_def initializeChat_def fresh_service_def)
  note e = transmitted_edges [OF h]
  show ?thesis
    using h
      e [where f = "\<lparr>name = ''a.pdf'', file_type = ''application/pdf'', file_size = 3,
                    data = ''QUJD''\<rparr>"
          and gr = "GenerateReturns None" and sr = "SendReturns StreamEnd" and msg = "''q''"]
      e [where f = "\<lparr>name = ''a.pdf'', file_type = ''application/pdf'', file_size = 0,
                    data = ''data:application/pdf;base64,''\<rparr>"
          and gr = "GenerateReturns None" and sr = "SendReturns StreamEnd" and msg = "''q''"
          and a = "''data:application/pdf;base64''"]
      e [where f = "\<lparr>name = ''a.pdf'', file_type = ''application/pdf'', file_size = 6,
                    data = ''data:x,QUJD,RUZH''\<rparr>"
          and gr = "GenerateReturns None" and sr = "SendReturns StreamEnd" and msg = "''q''"
          and a = "''data:x''" and b = "''QUJD''" and r = "''RUZH''"]
    by simp
qed

text \<open>
  The claim as stated fails in its last part, which speaks of every string with two
  or more commas: in \<^verbatim>\<open>data:,,QUJD\<close> the segment between the first and the second
  comma is empty, and what is transmitted is the whole string, not that segment.
\<close>

theorem transmitted_empty_segment:
  "summary_payloads (GenerateReturns None)
     [\<lparr>name = ''a.pdf'', file_type = ''application/pdf'', file_size = 4, data = ''data:,,QUJD''\<rparr>]
     fresh_service = [''data:,,QUJD'']
   \<and> message_payloads (CreateReturns (Some 1)) (SendReturns StreamEnd) ''q''
     [\<lparr>name = ''a.pdf'', file_type = ''application/pdf'', file_size = 4, data = ''data:,,QUJD''\<rparr>]
     fresh_service = [''data:,,QUJD'']
   \<and> split CHR '','' ''data:,,QUJD'' = [''data:'', [], ''QUJD'']"
  by (simp add: summary_payloads_def message_payloads_def generateSummary_def
      sendMessageStream_def ensureSession_def initializeChat_def fresh_service_def filePart_def
      base64Data_def at_index_def or_else_def)


subsection \<open>Assembling the streamed response\<close>

lemma fragment_texts_nonempty: "t \<in> set (fragment_texts frags) \<Longrightarrow> t \<noteq> []"
  by (induction frags rule: fragment_texts.induct) (auto split: if_splits)

lemma running_totals_Nil: "running_totals [] = []"
  by (simp add: running_totals_def)

lemma running_totals_Cons:
  "running_totals (t # ts) = t # map ((@) t) (running_totals ts)"
proof -
  have "[1..<Suc (Suc (length ts))] = 1 # map Suc [1..<Suc (length ts)]"
    by (simp add: upt_conv_Cons map_Suc_upt del: upt_Suc)
  then show ?thesis
    by (simp add: running_totals_def comp_def del: upt_Suc)
qed

lemma running_totals_length: "length (running_totals ts) = length ts"
  by (simp add: running_totals_def del: upt_Suc)

lemma running_totals_last:
  assumes "ts \<noteq> []"
  shows "last (running_totals ts) = concat ts"
proof -
  from assms have "[Suc 0..<Suc (length ts)] = [Suc 0..<length ts] @ [length ts]"
    by (cases ts) simp_all
  then show ?thesis
    by (simp add: running_totals_def del: upt_Suc)
qed

lemma running_totals_nonempty:
  "\<forall>t \<in> set ts. t \<noteq> [] \<Longrightarrow> r \<in> set (running_totals ts) \<Longrightarrow> r \<noteq> []"
  by (cases ts) (auto simp: running_totals_Cons running_totals_Nil)

lemma running_totals_growing:
  "\<forall>t \<in> set ts. t \<noteq> [] \<Longrightarrow> sorted_wrt strict_prefix (running_totals ts)"
proof (induction ts)
  case Nil
  then show ?case by (simp add: running_totals_Nil)
next
  case (Cons t ts)
  then have ih: "sorted_wrt strict_prefix (running_totals ts)" by simp
  from Cons.prems have ne: "\<forall>r \<in> set (running_totals ts). r \<noteq> []"
    using running_totals_nonempty [of ts] by auto
  have "\<And>x y. strict_prefix (t @ x) (t @ y) = strict_prefix x y"
    by (simp add: strict_prefix_def)
  then have "sorted_wrt strict_prefix (map ((@) t) (running_totals ts))"
    using ih by (simp add: sorted_wrt_map)
  moreover have "\<forall>r \<in> set (running_totals ts). strict_prefix t (t @ r)"
    using ne by (simp add: strict_prefix_def)
  ultimately show ?case
    by (simp add: running_totals_Cons)
qed

lemma stream_of_Cons: "stream_of (a # frags) = StreamChunk a (stream_of frags)"
  by (simp add: stream_of_def)

lemma map_append_Nil: "map ((@) []) xs = xs"
  by (induction xs) simp_all

lemma consume_stream_of:
  "consume (Some f) (stream_of frags) acc u
     = (Inr (acc @ concat (fragment_texts frags)),
        foldl (\<lambda>v t. f t v) u (map ((@) acc) (running_totals (fragment_texts frags))))"
proof (induction frags arbitrary: acc u)
  case Nil
  then show ?case by (simp add: stream_of_def running_totals_Nil)
next
  case (Cons a frags)
  show ?case
  proof (cases a)
    case None
    then show ?thesis using Cons.IH by (simp add: stream_of_Cons)
  next
    case (Some t)
    then show ?thesis using Cons.IH [of "acc @ t" "f (acc @ t) u"] Cons.IH [of acc u]
      by (simp add: stream_of_Cons running_totals_Cons comp_def)
  qed
qed

text \<open>
  C1, as the code has it. The dispatcher takes every fragment as an increment. For a
  finite stream that ends normally it runs the progress callback once for every
  fragment whose text is not empty, in order, each time with the concatenation of the
  texts received so far; fragments without text or with an empty text are skipped. Each
  value passed is a proper extension of every earlier one, and the value returned is
  the concatenation of all texts, which is the last value passed to the callback if
  there was one.
\<close>

theorem sendMessageStream_accumulates:
  assumes "ensureSession cr s = Inr (c, s1)"
  shows "(\<exists>s2. sendMessageStream cr (SendReturns (stream_of frags)) txt files (Some onChunk) s u
            = (Inr (concat (fragment_texts frags)), s2,
               foldl (\<lambda>v t. onChunk t v) u (running_totals (fragment_texts frags))))
         \<and> sorted_wrt strict_prefix (running_totals (fragment_texts frags))
         \<and> length (running_totals (fragment_texts frags)) = length (fragment_texts frags)
         \<and> (fragment_texts frags \<noteq> [] \<longrightarrow>
              last (running_totals (fragment_texts frags)) = concat (fragment_texts frags))"
proof -
  have "consume (Some onChunk) (stream_of frags) [] u
     = (Inr (concat (fragment_texts frags)),
        foldl (\<lambda>v t. onChunk t v) u (running_totals (fragment_texts frags)))"
    using consume_stream_of [of onChunk frags "[]" u] by (simp add: map_append_Nil)
  with assms have "\<exists>s2. sendMessageStream cr (SendReturns (stream_of frags)) txt files (Some onChunk) s u
            = (Inr (concat (fragment_texts frags)), s2,
               foldl (\<lambda>v t. onChunk t v) u (running_totals (fragment_texts frags)))"
    by (simp add: sendMessageStream_def Let_def)
  moreover have "sorted_wrt strict_prefix (running_totals (fragment_texts frags))"
    using fragment_texts_nonempty by (intro running_totals_growing) blast
  ultimately show ?thesis
    by (simp add: running_totals_last running_totals_length)
qed

theorem sendMessageStream_accumulates_witness:
  "ensureSession (CreateReturns (Some 1)) fresh_service
     = Inr (1, fresh_service\<lparr>chatSession := Some 1, created := [1]\<rparr>)
   \<and> sendMessageStream (CreateReturns (Some 1))
        (SendReturns (stream_of [Some ''Hello'', Some '' world'', Some ''!''])) ''q'' None
        (Some observe) fresh_service []
      = (Inr ''Hello world!'',
         fresh_service\<lparr>chatSession := Some 1, created := [1], sent := [(1, [Text ''q''])]\<rparr>,
         [''Hello'', ''Hello world'', ''Hello world!''])"
proof -
  have h: "ensureSession (CreateReturns (Some 1)) fresh_service
     = Inr (1, fresh_service\<lparr>chatSession := Some 1, created := [1]\<rparr>)"
    by (simp add: ensureSession_def initializeChat_def fresh_service_def)
  show ?thesis
    using h sendMessageStream_accumulates [OF h, of "[Some ''Hello'', Some '' world'', Some ''!'']"
        "''q''" None observe "[]"]
    by (simp add: sendMessageStream_def ensureSession_def initializeChat_def fresh_service_def
        stream_of_def observe_def)
qed

text \<open>
  The claim as stated fails where fragments are cumulative: given the fragments
  \<^verbatim>\<open>Hello\<close>, \<^verbatim>\<open>Hello world\<close>, \<^verbatim>\<open>Hello world!\<close> the callback sees their running
  concatenation, not the fragments, and the value returned is not the last fragment.
  Nor is the callback run after a fragment whose text is empty or absent.
\<close>

theorem sendMessageStream_cumulative_fragments:
  "snd (snd (sendMessageStream (CreateReturns (Some 1))
        (SendReturns (stream_of [Some ''Hello'', Some ''Hello world'', Some ''Hello world!'']))
        ''q'' None (Some observe) fresh_service []))
     = [''Hello'', ''HelloHello world'', ''HelloHello worldHello world!'']
   \<and> fst (sendMessageStream (CreateReturns (Some 1))
        (SendReturns (stream_of [Some ''Hello'', Some ''Hello world'', Some ''Hello world!'']))
        ''q'' None (Some observe) fresh_service [])
     = Inr ''HelloHello worldHello world!''
   \<and> snd (snd (sendMessageStream (CreateReturns (Some 1))
        (SendReturns (stream_of [Some ''Hi'', Some [], None])) ''q'' None (Some observe)
        fresh_service []))
     = [''Hi'']"
  by (simp add: sendMessageStream_def ensureSession_def initializeChat_def fresh_service_def
      stream_of_def observe_def)

subsection \<open>Sending a message from the chat view\<close>

lemma consume_failing: "fst (consume onChunk (failing_stream frags e) acc u) = Inl e"
  by (induction frags arbitrary: acc u) (auto simp: failing_stream_def split: option.splits)

lemma consume_streaming:
  "\<exists>c. snd (consume (Some (\<lambda>chunk v. v\<lparr>streamingContent := chunk\<rparr>)) st acc u)
         = u\<lparr>streamingContent := c\<rparr>"
proof (induction st arbitrary: acc u)
  case StreamEnd
  have "u = u\<lparr>streamingContent := streamingContent u\<rparr>" by simp
  then show ?case by (metis consume.simps(1) snd_conv)
next
  case (StreamThrows e)
  have "u = u\<lparr>streamingContent := streamingContent u\<rparr>" by simp
  then show ?case by (metis consume.simps(2) snd_conv)
next
  case (StreamChunk t st)
  show ?case
  proof (cases "t = None \<or> t = Some []")
    case True
    then show ?thesis using StreamChunk [of acc u] by auto
  next
    case False
    then obtain x where x: "t = Some x" "x \<noteq> []" by auto
    from StreamChunk [of "acc @ x" "u\<lparr>streamingContent := acc @ x\<rparr>"]
    obtain c where "snd (consume (Some (\<lambda>chunk v. v\<lparr>streamingContent := chunk\<rparr>)) st (acc @ x)
                      (u\<lparr>streamingContent := acc @ x\<rparr>)) = u\<lparr>streamingContent := c\<rparr>"
      by auto
    with x show ?thesis by auto
  qed
qed

lemma sendMessageStream_fails:
  assumes "sr = SendThrows e \<or> sr = SendReturns (failing_stream frags e)"
  shows "\<exists>e'. fst (sendMessageStream cr sr txt files onChunk s u) = Inl e'"
proof (cases "ensureSession cr s")
  case (Inl e')
  then show ?thesis by (simp add: sendMessageStream_def)
next
  case (Inr p)
  obtain c s1 where p: "p = (c, s1)" by (cases p)
  from assms show ?thesis
  proof
    assume "sr = SendThrows e"
    with Inr p show ?thesis by (simp add: sendMessageStream_def Let_def)
  next
    assume "sr = SendReturns (failing_stream frags e)"
    with Inr p consume_failing [of onChunk frags e "[]" u] show ?thesis
      by (auto simp: sendMessageStream_def Let_def split: prod.splits)
  qed
qed

lemma sendMessageStream_streaming:
  "\<exists>c. snd (snd (sendMessageStream cr sr txt files
                    (Some (\<lambda>chunk v. v\<lparr>streamingContent := chunk\<rparr>)) s u))
         = u\<lparr>streamingContent := c\<rparr>"
proof -
  have u: "u = u\<lparr>streamingContent := streamingContent u\<rparr>" by simp
  show ?thesis
  proof (cases "ensureSession cr s")
    case (Inl e')
    then have "snd (snd (sendMessageStream cr sr txt files
                    (Some (\<lambda>chunk v. v\<lparr>streamingContent := chunk\<rparr>)) s u)) = u"
      by (simp add: sendMessageStream_def)
    with u show ?thesis by metis
  next
    case (Inr p)
    obtain c s1 where p: "p = (c, s1)" by (cases p)
    show ?thesis
    proof (cases sr)
      case (SendThrows e)
      with Inr p have "snd (snd (sendMessageStream cr sr txt files
                    (Some (\<lambda>chunk v. v\<lparr>streamingContent := chunk\<rparr>)) s u)) = u"
        by (simp add: sendMessageStream_def Let_def)
      with u show ?thesis by metis
    next
      case (SendReturns st)
      with Inr p have "snd (snd (sendMessageStream cr sr txt files
                    (Some (\<lambda>chunk v. v\<lparr>streamingContent := chunk\<rparr>)) s u))
          = snd (consume (Some (\<lambda>chunk v. v\<lparr>streamingContent := chunk\<rparr>)) st [] u)"
        by (simp add: sendMessageStream_def Let_def split: prod.splits)
      with consume_streaming [of st "[]" u] show ?thesis by simp
    qed
  qed
qed

text \<open>The chat view after a handler run that dispatched.\<close>

lemma handleSendMessage_view:
  assumes "trim (inputValue ui) \<noteq> []" "\<not> isLoading ui"
  shows "fst (handleSendMessage env files ui s)
     = ui\<lparr>inputValue := [],
          messages := messages ui @
            [userMessage env (trim (inputValue ui)),
             (case fst (sendMessageStream (create_answer env) (send_answer env)
                          (trim (inputValue ui))
                          (if length (messages ui) = 0 then Some files else None)
                          (Some (\<lambda>chunk v. v\<lparr>streamingContent := chunk\<rparr>)) s
                          (ui\<lparr>inputValue := [],
                              messages := messages ui @ [userMessage env (trim (inputValue ui))],
                              isLoading := True, streamingContent := []\<rparr>)) of
                Inr responseText \<Rightarrow> modelMessage env responseText
              | Inl e \<Rightarrow> errorMessage env)],
          isLoading := False, streamingContent := []\<rparr>"
proof -
  let ?ui1 = "ui\<lparr>inputValue := [],
                 messages := messages ui @ [userMessage env (trim (inputValue ui))],
                 isLoading := True, streamingContent := []\<rparr>"
  let ?r = "sendMessageStream (create_answer env) (send_answer env) (trim (inputValue ui))
              (if length (messages ui) = 0 then Some files else None)
              (Some (\<lambda>chunk v. v\<lparr>streamingContent := chunk\<rparr>)) s ?ui1"
  obtain c where c: "snd (snd ?r) = ?ui1\<lparr>streamingContent := c\<rparr>"
    using sendMessageStream_streaming by blast
  obtain r s' ui2 where r: "?r = (r, s', ui2)" by (cases ?r)
  with c have ui2: "ui2 = ?ui1\<lparr>streamingContent := c\<rparr>" by simp
  from assms r show ?thesis
    unfolding ui2 by (cases r) (simp_all add: handleSendMessage_def Let_def)
qed

lemma handleSendMessage_service:
  assumes "trim (inputValue ui) \<noteq> []" "\<not> isLoading ui"
  shows "snd (handleSendMessage env files ui s)
     = fst (snd (sendMessageStream (create_answer env) (send_answer env)
                          (trim (inputValue ui))
                          (if length (messages ui) = 0 then Some files else None)
                          (Some (\<lambda>chunk v. v\<lparr>streamingContent := chunk\<rparr>)) s
                          (ui\<lparr>inputValue := [],
                              messages := messages ui @ [userMessage env (trim (inputValue ui))],
                              isLoading := True, streamingContent := []\<rparr>)))"
  using assms
  by (simp add: handleSendMessage_def Let_def split: prod.splits sum.splits)

text \<open>
  Within one mounted chat view the handler passes the files exactly when the view's
  message list is empty, and the dispatcher attaches what it is passed. A handler run
  that dispatched leaves the message list non-empty, so every later dispatch from the
  same view carries the text alone.
\<close>

lemma handleSendMessage_attaches:
  assumes "trim (inputValue ui) \<noteq> []" "\<not> isLoading ui"
    and "ensureSession (create_answer env) s = Inr (c, s1)"
  shows "sent (snd (handleSendMessage env files ui s))
           = sent s @ [(c, (if messages ui = [] then map filePart files else [])
                             @ [Text (trim (inputValue ui))])]"
    and "messages (fst (handleSendMessage env files ui s)) \<noteq> []"
proof -
  from ensureSession_created [OF assms(3)] have "sent s1 = sent s" by simp
  with assms(3) show "sent (snd (handleSendMessage env files ui s))
           = sent s @ [(c, (if messages ui = [] then map filePart files else [])
                             @ [Text (trim (inputValue ui))])]"
    by (simp add: handleSendMessage_service [OF assms(1,2)] sendMessageStream_service)
  show "messages (fst (handleSendMessage env files ui s)) \<noteq> []"
    by (simp add: handleSendMessage_view [OF assms(1,2)])
qed

lemma handleSendMessage_two_turns:
  assumes "trim (inputValue ui) \<noteq> []" "\<not> isLoading ui"
  shows "length (messages (fst (handleSendMessage env files ui s))) = length (messages ui) + 2"
  by (simp add: handleSendMessage_view [OF assms])

lemma sendMessageStream_returns:
  assumes "ensureSession cr s = Inr (c, s1)"
  shows "fst (sendMessageStream cr (SendReturns (stream_of frags)) txt files (Some f) s u)
           = Inr (concat (fragment_texts frags))"
  using assms consume_stream_of [of f frags "[]" u]
  by (simp add: sendMessageStream_def Let_def)

text \<open>
  C7. When a dispatch fails, in transport or while streaming after any number of
  fragments, the chat view gains the user's turn and exactly one assistant turn, whose
  text is the fixed failure sentence and whose error flag is set; the text assembled
  before the failure appears nowhere (it was in the streaming buffer only while the
  request ran), the streaming buffer is empty and the view is no longer loading. The
  conversation stays usable: the next message with a text that is not blank adds its
  two turns; if a session is there or can be created, the message is issued through
  it, with its text and no files; and if the service then answers, the answer is the
  new assistant turn.
\<close>

theorem handleSendMessage_dispatch_failure:
  assumes "trim (inputValue ui) \<noteq> []" and "\<not> isLoading ui"
    and "send_answer env = SendThrows e \<or> send_answer env = SendReturns (failing_stream frags e)"
  shows "fst (handleSendMessage env files ui s)
           = ui\<lparr>inputValue := [],
                messages := messages ui @
                  [userMessage env (trim (inputValue ui)), errorMessage env],
                isLoading := False, streamingContent := []\<rparr>
         \<and> role (errorMessage env) = Model
         \<and> msg_text (errorMessage env)
             = ''I'm sorry, I encountered an error while processing your request. Please try again.''
         \<and> isError (errorMessage env) = Some True
         \<and> role (userMessage env (trim (inputValue ui))) = User
         \<and> (trim v \<noteq> [] \<longrightarrow>
              length (messages (fst (handleSendMessage env' files
                        ((fst (handleSendMessage env files ui s))\<lparr>inputValue := v\<rparr>) s')))
                = length (messages ui) + 4)
         \<and> (trim v \<noteq> [] \<and> ensureSession (create_answer env') s' = Inr (c, s_c) \<longrightarrow>
              sent (snd (handleSendMessage env' files
                      ((fst (handleSendMessage env files ui s))\<lparr>inputValue := v\<rparr>) s'))
                = sent s' @ [(c, [Text (trim v)])])
         \<and> (trim v \<noteq> [] \<and> ensureSession (create_answer env') s' = Inr (c, s_c)
              \<and> send_answer env' = SendReturns (stream_of frags') \<longrightarrow>
              messages (fst (handleSendMessage env' files
                      ((fst (handleSendMessage env files ui s))\<lparr>inputValue := v\<rparr>) s'))
                = messages ui @
                    [userMessage env (trim (inputValue ui)), errorMessage env,
                     userMessage env' (trim v),
                     modelMessage env' (concat (fragment_texts frags'))])"
proof -
  let ?ui' = "fst (handleSendMessage env files ui s)"
  let ?w = "?ui'\<lparr>inputValue := v\<rparr>"
  have "\<exists>e'. fst (sendMessageStream (create_answer env) (send_answer env) (trim (inputValue ui))
            (if length (messages ui) = 0 then Some files else None)
            (Some (\<lambda>chunk v. v\<lparr>streamingContent := chunk\<rparr>)) s
            (ui\<lparr>inputValue := [],
                messages := messages ui @ [userMessage env (trim (inputValue ui))],
                isLoading := True, streamingContent := []\<rparr>)) = Inl e'"
    by (rule sendMessageStream_fails [OF assms(3)])
  then obtain e' where
    "fst (sendMessageStream (create_answer env) (send_answer env) (trim (inputValue ui))
            (if length (messages ui) = 0 then Some files else None)
            (Some (\<lambda>chunk v. v\<lparr>streamingContent := chunk\<rparr>)) s
            (ui\<lparr>inputValue := [],
                messages := messages ui @ [userMessage env (trim (inputValue ui))],
                isLoading := True, streamingContent := []\<rparr>)) = Inl e'"
    by (rule exE)
  then have view: "?ui' = ui\<lparr>inputValue := [],
                messages := messages ui @
                  [userMessage env (trim (inputValue ui)), errorMessage env],
                isLoading := False, streamingContent := []\<rparr>"
    by (simp add: handleSendMessage_view [OF assms(1,2)])
  have w_input: "inputValue ?w = v" by simp
  have w_loading: "\<not> isLoading ?w" by (simp add: view)
  have w_messages: "messages ?w
      = messages ui @ [userMessage env (trim (inputValue ui)), errorMessage env]"
    by (simp add: view)
  have next_send: "length (messages (fst (handleSendMessage env' files ?w s')))
                = length (messages ui) + 4" if "trim v \<noteq> []"
  proof -
    from that have "trim (inputValue ?w) \<noteq> []" by simp
    then have "length (messages (fst (handleSendMessage env' files ?w s')))
        = length (messages ?w) + 2"
      using w_loading by (rule handleSendMessage_two_turns)
    then show ?thesis by (simp add: w_messages)
  qed
  have next_sent: "sent (snd (handleSendMessage env' files ?w s'))
                = sent s' @ [(c, [Text (trim v)])]"
    if "trim v \<noteq> []" "ensureSession (create_answer env') s' = Inr (c, s_c)"
  proof -
    from that have t: "trim (inputValue ?w) \<noteq> []" by simp
    have "sent (snd (handleSendMessage env' files ?w s'))
           = sent s' @ [(c, (if messages ?w = [] then map filePart files else [])
                             @ [Text (trim (inputValue ?w))])]"
      using t w_loading that(2) by (rule handleSendMessage_attaches(1))
    then show ?thesis unfolding w_messages w_input by simp
  qed
  have next_reply: "messages (fst (handleSendMessage env' files ?w s'))
                = messages ui @
                    [userMessage env (trim (inputValue ui)), errorMessage env,
                     userMessage env' (trim v),
                     modelMessage env' (concat (fragment_texts frags'))]"
    if "trim v \<noteq> []" "ensureSession (create_answer env') s' = Inr (c, s_c)"
      "send_answer env' = SendReturns (stream_of frags')"
  proof -
    from that have t: "trim (inputValue ?w) \<noteq> []" by simp
    note v = handleSendMessage_view [OF t w_loading, of env' files s']
    have r: "fst (sendMessageStream (create_answer env') (send_answer env')
                          (trim (inputValue ?w))
                          (if length (messages ?w) = 0 then Some files else None)
                          (Some (\<lambda>chunk v. v\<lparr>streamingContent := chunk\<rparr>)) s'
                          (?w\<lparr>inputValue := [],
                              messages := messages ?w @ [userMessage env' (trim (inputValue ?w))],
                              isLoading := True, streamingContent := []\<rparr>))
             = Inr (concat (fragment_texts frags'))"
      unfolding that(3) by (rule sendMessageStream_returns [OF that(2)])
    have "messages (fst (handleSendMessage env' files ?w s'))
            = messages ?w @ [userMessage env' (trim (inputValue ?w)),
                             modelMessage env' (concat (fragment_texts frags'))]"
      unfolding v r by simp
    then show ?thesis unfolding w_messages w_input by simp
  qed
  have "role (errorMessage env) = Model" "isError (errorMessage env) = Some True"
    "msg_text (errorMessage env)
       = ''I'm sorry, I encountered an error while processing your request. Please try again.''"
    "role (userMessage env (trim (inputValue ui))) = User"
    by (simp_all add: errorMessage_def userMessage_def failure_text_def)
  with view next_send next_sent next_reply show ?thesis
    by blast
qed

theorem handleSendMessage_dispatch_failure_witness:
  "trim (inputValue (mount\<lparr>inputValue := '' What is the conclusion? ''\<rparr>)) \<noteq> []
   \<and> \<not> isLoading (mount\<lparr>inputValue := '' What is the conclusion? ''\<rparr>)
   \<and> send_answer (breaking 1 [Some ''Hel''] 100)
       = SendReturns (failing_stream [Some ''Hel''] (Error ''connection lost''))
   \<and> (fst (handleSendMessage (breaking 1 [Some ''Hel''] 100) [report_pdf]
            (mount\<lparr>inputValue := '' What is the conclusion? ''\<rparr>) fresh_service))
      = mount\<lparr>messages :=
          [\<lparr>msg_id = ''100'', role = User, msg_text = ''What is the conclusion?'',
            timestamp = 100, isError = None\<rparr>,
           \<lparr>msg_id = ''106'', role = Model,
            msg_text = ''I'm sorry, I encountered an error while processing your request. Please try again.'',
            timestamp = 106, isError = Some True\<rparr>]\<rparr>
   \<and> trim ''Explain more'' \<noteq> []
   \<and> ensureSession (create_answer (answering 1 [Some ''More.''] 200))
         \<lparr>chatSession = Some 1, created = [1],
          sent = [(1, [InlineData ''QUJD'' ''application/pdf'', Text ''What is the conclusion?''])],
          generated = []\<rparr>
       = Inr (1, \<lparr>chatSession = Some 1, created = [1],
          sent = [(1, [InlineData ''QUJD'' ''application/pdf'', Text ''What is the conclusion?''])],
          generated = []\<rparr>)
   \<and> send_answer (answering 1 [Some ''More.''] 200) = SendReturns (stream_of [Some ''More.''])
   \<and> sent (snd (handleSendMessage (answering 1 [Some ''More.''] 200) [report_pdf]
        ((fst (handleSendMessage (breaking 1 [Some ''Hel''] 100) [report_pdf]
            (mount\<lparr>inputValue := '' What is the conclusion? ''\<rparr>) fresh_service))\<lparr>inputValue := ''Explain more''\<rparr>)
        \<lparr>chatSession = Some 1, created = [1],
          sent = [(1, [InlineData ''QUJD'' ''application/pdf'', Text ''What is the conclusion?''])],
          generated = []\<rparr>))
      = [(1, [InlineData ''QUJD'' ''application/pdf'', Text ''What is the conclusion?'']),
         (1, [Text ''Explain more''])]
   \<and> messages (fst (handleSendMessage (answering 1 [Some ''More.''] 200) [report_pdf]
        ((fst (handleSendMessage (breaking 1 [Some ''Hel''] 100) [report_pdf]
            (mount\<lparr>inputValue := '' What is the conclusion? ''\<rparr>) fresh_service))\<lparr>inputValue := ''Explain more''\<rparr>)
        \<lparr>chatSession = Some 1, created = [1],
          sent = [(1, [InlineData ''QUJD'' ''application/pdf'', Text ''What is the conclusion?''])],
          generated = []\<rparr>))
      = [\<lparr>msg_id = ''100'', role = User, msg_text = ''What is the conclusion?'',
            timestamp = 100, isError = None\<rparr>,
         \<lparr>msg_id = ''106'', role = Model,
            msg_text = ''I'm sorry, I encountered an error while processing your request. Please try again.'',
            timestamp = 106, isError = Some True\<rparr>,
         \<lparr>msg_id = ''200'', role = User, msg_text = ''Explain more'',
            timestamp = 200, isError = None\<rparr>,
         \<lparr>msg_id = ''206'', role = Model, msg_text = ''More.'',
            timestamp = 206, isError = None\<rparr>]"
proof -
  have t: "trim '' What is the conclusion? '' = ''What is the conclusion?''"
    by (simp add: trim_def is_space_def)
  then have h1: "trim (inputValue (mount\<lparr>inputValue := '' What is the conclusion? ''\<rparr>)) \<noteq> []"
    by simp
  have h2: "\<not> isLoading (mount\<lparr>inputValue := '' What is the conclusion? ''\<rparr>)"
    by (simp add: mount_def)
  have h3: "send_answer (breaking 1 [Some ''Hel''] 100) = SendThrows (Error ''connection lost'')
            \<or> send_answer (breaking 1 [Some ''Hel''] 100)
                = SendReturns (failing_stream [Some ''Hel''] (Error ''connection lost''))"
    by (simp add: breaking_def)
  have t': "trim ''Explain more'' = ''Explain more''"
    by (simp add: trim_def is_space_def)
  then have h4: "trim ''Explain more'' \<noteq> []"
    by simp
  have h5: "ensureSession (create_answer (answering 1 [Some ''More.''] 200))
         \<lparr>chatSession = Some 1, created = [1],
          sent = [(1, [InlineData ''QUJD'' ''application/pdf'', Text ''What is the conclusion?''])],
          generated = []\<rparr>
       = Inr (1, \<lparr>chatSession = Some 1, created = [1],
          sent = [(1, [InlineData ''QUJD'' ''application/pdf'', Text ''What is the conclusion?''])],
          generated = []\<rparr>)"
    by (simp add: ensureSession_def)
  have h6: "send_answer (answering 1 [Some ''More.''] 200) = SendReturns (stream_of [Some ''More.''])"
    by (simp add: answering_def)
  have id1: "toString 100 = ''100''" by code_simp
  have id2: "toString 106 = ''106''" by code_simp
  have id3: "toString 200 = ''200''" by code_simp
  have id4: "toString 206 = ''206''" by code_simp
  have turns:
    "userMessage (breaking 1 [Some ''Hel''] 100) ''What is the conclusion?''
       = \<lparr>msg_id = ''100'', role = User, msg_text = ''What is the conclusion?'',
            timestamp = 100, isError = None\<rparr>"
    "errorMessage (breaking 1 [Some ''Hel''] 100)
       = \<lparr>msg_id = ''106'', role = Model,
            msg_text = ''I'm sorry, I encountered an error while processing your request. Please try again.'',
            timestamp = 106, isError = Some True\<rparr>"
    "userMessage (answering 1 [Some ''More.''] 200) ''Explain more''
       = \<lparr>msg_id = ''200'', role = User, msg_text = ''Explain more'',
            timestamp = 200, isError = None\<rparr>"
    "modelMessage (answering 1 [Some ''More.''] 200) ''More.''
       = \<lparr>msg_id = ''206'', role = Model, msg_text = ''More.'',
            timestamp = 206, isError = None\<rparr>"
    by (simp_all add: userMessage_def errorMessage_def modelMessage_def breaking_def
        answering_def id1 id2 id3 id4 failure_text_def)
  note inst = handleSendMessage_dispatch_failure [OF h1 h2 h3,
      where files = "[report_pdf]" and s = fresh_service and v = "''Explain more''"
        and env' = "(answering 1 [Some ''More.''] 200)" and c = 1
        and s' = "\<lparr>chatSession = Some 1, created = [1],
          sent = [(1, [InlineData ''QUJD'' ''application/pdf'', Text ''What is the conclusion?''])],
          generated = []\<rparr>"
        and s_c = "\<lparr>chatSession = Some 1, created = [1],
          sent = [(1, [InlineData ''QUJD'' ''application/pdf'', Text ''What is the conclusion?''])],
          generated = []\<rparr>"
        and frags' = "[Some ''More.'']"]
  from inst [THEN conjunct1] turns have c1: "(fst (handleSendMessage (breaking 1 [Some ''Hel''] 100) [report_pdf]
            (mount\<lparr>inputValue := '' What is the conclusion? ''\<rparr>) fresh_service))
      = mount\<lparr>messages :=
          [\<lparr>msg_id = ''100'', role = User, msg_text = ''What is the conclusion?'',
            timestamp = 100, isError = None\<rparr>,
           \<lparr>msg_id = ''106'', role = Model,
            msg_text = ''I'm sorry, I encountered an error while processing your request. Please try again.'',
            timestamp = 106, isError = Some True\<rparr>]\<rparr>"
    by (simp add: t mount_def)
  from inst [THEN conjunct2, THEN conjunct2, THEN conjunct2, THEN conjunct2, THEN conjunct2,
      THEN conjunct2, THEN conjunct1] h4 h5 have c2: "sent (snd (handleSendMessage (answering 1 [Some ''More.''] 200) [report_pdf]
        ((fst (handleSendMessage (breaking 1 [Some ''Hel''] 100) [report_pdf]
            (mount\<lparr>inputValue := '' What is the conclusion? ''\<rparr>) fresh_service))\<lparr>inputValue := ''Explain more''\<rparr>)
        \<lparr>chatSession = Some 1, created = [1],
          sent = [(1, [InlineData ''QUJD'' ''application/pdf'', Text ''What is the conclusion?''])],
          generated = []\<rparr>))
      = [(1, [InlineData ''QUJD'' ''application/pdf'', Text ''What is the conclusion?'']),
         (1, [Text ''Explain more''])]"
    by (simp add: t')
  from inst [THEN conjunct2, THEN conjunct2, THEN conjunct2, THEN conjunct2, THEN conjunct2,
      THEN conjunct2, THEN conjunct2] h4 h5 h6 turns have c3: "messages (fst (handleSendMessage (answering 1 [Some ''More.''] 200) [report_pdf]
        ((fst (handleSendMessage (breaking 1 [Some ''Hel''] 100) [report_pdf]
            (mount\<lparr>inputValue := '' What is the conclusion? ''\<rparr>) fresh_service))\<lparr>inputValue := ''Explain more''\<rparr>)
        \<lparr>chatSession = Some 1, created = [1],
          sent = [(1, [InlineData ''QUJD'' ''application/pdf'', Text ''What is the conclusion?''])],
          generated = []\<rparr>))
      = [\<lparr>msg_id = ''100'', role = User, msg_text = ''What is the conclusion?'',
            timestamp = 100, isError = None\<rparr>,
         \<lparr>msg_id = ''106'', role = Model,
            msg_text = ''I'm sorry, I encountered an error while processing your request. Please try again.'',
            timestamp = 106, isError = Some True\<rparr>,
         \<lparr>msg_id = ''200'', role = User, msg_text = ''Explain more'',
            timestamp = 200, isError = None\<rparr>,
         \<lparr>msg_id = ''206'', role = Model, msg_text = ''More.'',
            timestamp = 206, isError = None\<rparr>]"
    by (simp add: t t' mount_def)
  from h1 h2 h4 h5 h6 c1 c2 c3 show ?thesis
    by (simp add: breaking_def)
qed

subsection \<open>The summary and the session\<close>

text \<open>
  C8. The summary request is independent of the conversational session. It changes
  nothing of the module but the record of one-shot requests, so the session handle
  after it is the handle before; its result is the same whatever the module's state,
  so it does not read the handle. The summary handler leaves the message list as it
  is, and when the request fails it only opens the summary surface and puts the
  fixed failure sentence there.
\<close>

theorem generateSummary_independent:
  "snd (generateSummary gr files s)
     = s\<lparr>generated := generated s @ [map filePart files @ [Text summary_instruction]]\<rparr>
   \<and> chatSession (snd (generateSummary gr files s)) = chatSession s
   \<and> fst (generateSummary gr files s) = fst (generateSummary gr files s0)
   \<and> messages (fst (handleGenerateSummary gr files ui s)) = messages ui
   \<and> chatSession (snd (handleGenerateSummary gr files ui s)) = chatSession s
   \<and> (\<not> isSummarizing ui \<longrightarrow>
        fst (handleGenerateSummary (GenerateThrows e) files ui s)
          = ui\<lparr>isSummaryModalOpen := True,
               summaryContent :=
                 ''Failed to generate summary. Please check your connection and try again.''\<rparr>)"
proof -
  have a: "snd (generateSummary gr files s)
     = s\<lparr>generated := generated s @ [map filePart files @ [Text summary_instruction]]\<rparr>"
    by (cases gr) (simp_all add: generateSummary_def Let_def)
  have b: "fst (generateSummary gr files s) = fst (generateSummary gr files s0)"
    by (cases gr) (simp_all add: generateSummary_def Let_def)
  have c: "messages (fst (handleGenerateSummary gr files ui s)) = messages ui"
    by (cases gr) (simp_all add: handleGenerateSummary_def generateSummary_def Let_def)
  have d: "chatSession (snd (handleGenerateSummary gr files ui s)) = chatSession s"
    by (cases gr) (simp_all add: handleGenerateSummary_def generateSummary_def Let_def)
  have f: "fst (handleGenerateSummary (GenerateThrows e) files ui s)
          = ui\<lparr>isSummaryModalOpen := True,
               summaryContent :=
                 ''Failed to generate summary. Please check your connection and try again.''\<rparr>"
    if "\<not> isSummarizing ui"
    using that
    by (simp add: handleGenerateSummary_def generateSummary_def Let_def summary_failure_text_def)
  from a have "chatSession (snd (generateSummary gr files s)) = chatSession s" by simp
  with a b c d f show ?thesis by blast
qed

theorem generateSummary_independent_witness:
  "\<not> isSummarizing mount
   \<and> handleGenerateSummary (GenerateThrows (Error ''quota'')) [report_pdf] mount
        (fresh_service\<lparr>chatSession := Some 1, created := [1]\<rparr>)
      = (mount\<lparr>isSummaryModalOpen := True,
               summaryContent :=
                 ''Failed to generate summary. Please check your connection and try again.''\<rparr>,
         fresh_service\<lparr>chatSession := Some 1, created := [1],
           generated := [[InlineData ''QUJD'' ''application/pdf'', Text summary_instruction]]\<rparr>)"
proof -
  have h: "\<not> isSummarizing mount" by (simp add: mount_def)
  have p: "filePart report_pdf = InlineData ''QUJD'' ''application/pdf''"
    by (simp add: filePart_def report_pdf_def base64Data_def at_index_def or_else_def)
  have g: "generated fresh_service = []" by (simp add: fresh_service_def)
  from generateSummary_independent [of "GenerateThrows (Error ''quota'')" "[report_pdf]"
      "fresh_service\<lparr>chatSession := Some 1, created := [1]\<rparr>" fresh_service mount
      "Error ''quota''"] h
  have "fst (handleGenerateSummary (GenerateThrows (Error ''quota'')) [report_pdf] mount
        (fresh_service\<lparr>chatSession := Some 1, created := [1]\<rparr>))
      = mount\<lparr>isSummaryModalOpen := True,
               summaryContent :=
                 ''Failed to generate summary. Please check your connection and try again.''\<rparr>"
    by blast
  moreover have "snd (handleGenerateSummary (GenerateThrows (Error ''quota'')) [report_pdf] mount
        (fresh_service\<lparr>chatSession := Some 1, created := [1]\<rparr>))
      = fresh_service\<lparr>chatSession := Some 1, created := [1],
           generated := [[InlineData ''QUJD'' ''application/pdf'', Text summary_instruction]]\<rparr>"
    using h by (simp add: handleGenerateSummary_def generateSummary_def Let_def p g)
  ultimately show ?thesis using h by (simp add: prod_eq_iff)
qed

subsection \<open>The session outlives the chat view\<close>

text \<open>
  C3. File payloads are to be attached to the first message of a session and to no
  later one. The module's session is not bound to the chat view, though: going back
  discards the view and its message list, while \<^verbatim>\<open>chatSession\<close> stays. A user who
  asks about \<^verbatim>\<open>report.pdf\<close>, goes back, uploads \<^verbatim>\<open>annex.pdf\<close> and asks again sends
  the second question from a new view with an empty message list, so it carries the
  new file, and it goes through the session of the first question: session 1 receives
  attachments with its first and with its second message, and no second session is
  created.
\<close>

theorem files_attached_again_after_back:
  "snd (click_send (answering 2 [Some ''More.''] 200)
     (apfst (type_input ''Explain more'')
       (apfst (handleFileSelect [annex_pdf])
         (apfst (handleBack True)
           (click_send (answering 1 [Some ''Done.''] 100)
              (type_input ''What is the conclusion?'' (handleFileSelect [report_pdf] initial_app),
               fresh_service))))))
   = \<lparr>chatSession = Some 1, created = [1],
      sent = [(1, [InlineData ''QUJD'' ''application/pdf'', Text ''What is the conclusion?'']),
              (1, [InlineData ''RUZH'' ''application/pdf'', Text ''Explain more''])],
      generated = []\<rparr>"
proof -
  have p1: "filePart report_pdf = InlineData ''QUJD'' ''application/pdf''"
    by (simp add: filePart_def report_pdf_def base64Data_def at_index_def or_else_def)
  have p2: "filePart annex_pdf = InlineData ''RUZH'' ''application/pdf''"
    by (simp add: filePart_def annex_pdf_def base64Data_def at_index_def or_else_def)
  have t1: "trim ''What is the conclusion?'' = ''What is the conclusion?''"
    by (simp add: trim_def is_space_def)
  have t2: "trim ''Explain more'' = ''Explain more''"
    by (simp add: trim_def is_space_def)
  show ?thesis
    by (simp add: click_send_def handleSendMessage_def sendMessageStream_def ensureSession_def
        initializeChat_def fresh_service_def type_input_def handleFileSelect_def handleBack_def
        initial_app_def render_def mount_def answering_def stream_of_def p1 p2 t1 t2 Let_def)
qed

end
